theory Spec2Isabelle
  imports Main "HOL-Library.Signed_Division"
begin

section \<open>Values and exceptions of the platform\<close>

datatype exn = TypeError | RangeError | SyntaxError

text \<open>
  The values a field of a row or of a parsed document can hold. Numbers are the integers
  (fractions and \<open>NaN\<close> are not represented); an object is the list of its properties,
  the first binding of a key being the one that is read.
\<close>

datatype jsval =
    JUndefined
  | JNull
  | JBool bool
  | JNum int
  | JStr string
  | JArr "jsval list"
  | JObj "(string \<times> jsval) list"

fun truthy :: "jsval \<Rightarrow> bool" where
  "truthy JUndefined = False"
| "truthy JNull = False"
| "truthy (JBool b) = b"
| "truthy (JNum n) = (n \<noteq> 0)"
| "truthy (JStr s) = (s \<noteq> [])"
| "truthy (JArr xs) = True"
| "truthy (JObj kvs) = True"

fun typeof :: "jsval \<Rightarrow> string" where
  "typeof JUndefined = ''undefined''"
| "typeof JNull = ''object''"
| "typeof (JBool b) = ''boolean''"
| "typeof (JNum n) = ''number''"
| "typeof (JStr s) = ''string''"
| "typeof (JArr xs) = ''object''"
| "typeof (JObj kvs) = ''object''"

fun isArray :: "jsval \<Rightarrow> bool" where
  "isArray (JArr xs) = True"
| "isArray v = False"

text \<open>
  Calling a method of \<open>String.prototype\<close> (\<open>trim\<close>, \<open>replace\<close>, \<open>split\<close>, ...) on a
  value that is not a string, or reading \<open>length\<close> and calling \<open>forEach\<close> on a value that
  is not an array, throws a \<open>TypeError\<close>.
\<close>

fun stringReceiver :: "jsval \<Rightarrow> exn + string" where
  "stringReceiver (JStr s) = Inr s"
| "stringReceiver v = Inl TypeError"

fun arrayReceiver :: "jsval \<Rightarrow> exn + jsval list" where
  "arrayReceiver (JArr xs) = Inr xs"
| "arrayReceiver v = Inl TypeError"

definition bindE :: "exn + 'a \<Rightarrow> ('a \<Rightarrow> exn + 'b) \<Rightarrow> exn + 'b" where
  "bindE m f = (case m of Inl e \<Rightarrow> Inl e | Inr x \<Rightarrow> f x)"

section \<open>Strings of the platform\<close>

text \<open>
  A JavaScript string is modelled as a \<open>string\<close>: a list of characters whose codes are
  below 256 (the Latin-1 part of the UTF-16 code units). The white space of
  \<open>String.prototype.trim\<close>, of \<open>\s\<close> and of \<open>parseInt\<close> is, in that range, the
  characters 9 to 13, the space and the no-break space 160.
\<close>

definition isWhiteSpace :: "char \<Rightarrow> bool" where
  "isWhiteSpace c = (c \<in> set [CHR 0x09, CHR 0x0A, CHR 0x0B, CHR 0x0C, CHR 0x0D, CHR 0x20, CHR 0xA0])"

definition isDigit :: "char \<Rightarrow> bool" where
  "isDigit c = (c \<in> set ''0123456789'')"

text \<open>The class \<open>\w\<close>.\<close>

definition isWordChar :: "char \<Rightarrow> bool" where
  "isWordChar c =
     (c \<in> set ''ABCDEFGHIJKLMNOPQRSTUVWXYZabcdefghijklmnopqrstuvwxyz0123456789_'')"

fun indexOfChar :: "char \<Rightarrow> string \<Rightarrow> nat option" where
  "indexOfChar c [] = None"
| "indexOfChar c (d # ds) = (if c = d then Some 0 else map_option Suc (indexOfChar c ds))"

fun startsWith :: "string \<Rightarrow> string \<Rightarrow> bool" where
  "startsWith s [] = True"
| "startsWith [] (p # ps) = False"
| "startsWith (c # cs) (p # ps) = (c = p \<and> startsWith cs ps)"

definition trim :: "string \<Rightarrow> string" where
  "trim s = rev (dropWhile isWhiteSpace (rev (dropWhile isWhiteSpace s)))"

text \<open>\<open>s.includes(sub)\<close>, which is also \<open>s.indexOf(sub) !== -1\<close>.\<close>

fun includesStr :: "string \<Rightarrow> string \<Rightarrow> bool" where
  "includesStr [] sub = (sub = [])"
| "includesStr (c # cs) sub = (startsWith (c # cs) sub \<or> includesStr cs sub)"

text \<open>
  \<open>s.replace(/pat/g, rep)\<close> for a pattern that is a fixed text: the occurrences are
  taken from the left and do not overlap.
\<close>

fun replaceAll :: "string \<Rightarrow> string \<Rightarrow> string \<Rightarrow> string" where
  "replaceAll pat rep [] = []"
| "replaceAll pat rep (c # cs) =
     (if pat \<noteq> [] \<and> startsWith (c # cs) pat
      then rep @ replaceAll pat rep (drop (length pat) (c # cs))
      else c # replaceAll pat rep cs)"

text \<open>\<open>s.split(sep)\<close> for a separator that is not empty; the result is never empty.\<close>

fun splitOn :: "string \<Rightarrow> string \<Rightarrow> string list" where
  "splitOn sep [] = [[]]"
| "splitOn sep (c # cs) =
     (if sep \<noteq> [] \<and> startsWith (c # cs) sep
      then [] # splitOn sep (drop (length sep) (c # cs))
      else (case splitOn sep cs of [] \<Rightarrow> [[c]] | p # ps \<Rightarrow> (c # p) # ps))"

text \<open>
  \<open>toLowerCase\<close> on the characters below 256: the letters A to Z, and the Latin-1
  capitals 192 to 222 except the multiplication sign 215, move up by 32.
\<close>

definition upperLetters :: string where
  "upperLetters = ''ABCDEFGHIJKLMNOPQRSTUVWXYZ'' @
     [CHR 0xC0, CHR 0xC1, CHR 0xC2, CHR 0xC3, CHR 0xC4, CHR 0xC5, CHR 0xC6, CHR 0xC7,
      CHR 0xC8, CHR 0xC9, CHR 0xCA, CHR 0xCB, CHR 0xCC, CHR 0xCD, CHR 0xCE, CHR 0xCF,
      CHR 0xD0, CHR 0xD1, CHR 0xD2, CHR 0xD3, CHR 0xD4, CHR 0xD5, CHR 0xD6,
      CHR 0xD8, CHR 0xD9, CHR 0xDA, CHR 0xDB, CHR 0xDC, CHR 0xDD, CHR 0xDE]"

definition lowerLetters :: string where
  "lowerLetters = ''abcdefghijklmnopqrstuvwxyz'' @
     [CHR 0xE0, CHR 0xE1, CHR 0xE2, CHR 0xE3, CHR 0xE4, CHR 0xE5, CHR 0xE6, CHR 0xE7,
      CHR 0xE8, CHR 0xE9, CHR 0xEA, CHR 0xEB, CHR 0xEC, CHR 0xED, CHR 0xEE, CHR 0xEF,
      CHR 0xF0, CHR 0xF1, CHR 0xF2, CHR 0xF3, CHR 0xF4, CHR 0xF5, CHR 0xF6,
      CHR 0xF8, CHR 0xF9, CHR 0xFA, CHR 0xFB, CHR 0xFC, CHR 0xFD, CHR 0xFE]"

fun translateChar :: "string \<Rightarrow> string \<Rightarrow> char \<Rightarrow> char" where
  "translateChar (u # us) (l # ls) c = (if c = u then l else translateChar us ls c)"
| "translateChar us ls c = c"

definition toLowerChar :: "char \<Rightarrow> char" where
  "toLowerChar c = translateChar upperLetters lowerLetters c"

definition toLowerCase :: "string \<Rightarrow> string" where
  "toLowerCase s = map toLowerChar s"

text \<open>
  Matching a fixed ASCII text under the flag \<open>i\<close>: two characters match when they are
  the same letter in either case.
\<close>

fun startsWithCI :: "string \<Rightarrow> string \<Rightarrow> bool" where
  "startsWithCI s [] = True"
| "startsWithCI [] (p # ps) = False"
| "startsWithCI (c # cs) (p # ps) = (toLowerChar c = toLowerChar p \<and> startsWithCI cs ps)"

text \<open>The text from the first occurrence of \<open>label\<close> (any case) to the end.\<close>

fun fromFirstCI :: "string \<Rightarrow> string \<Rightarrow> string option" where
  "fromFirstCI label [] = (if label = [] then Some [] else None)"
| "fromFirstCI label (c # cs) =
     (if startsWithCI (c # cs) label then Some (c # cs) else fromFirstCI label cs)"

text \<open>The text before the first occurrence of \<open>label\<close> (any case), or all of it.\<close>

fun beforeFirstCI :: "string \<Rightarrow> string \<Rightarrow> string" where
  "beforeFirstCI label [] = []"
| "beforeFirstCI label (c # cs) =
     (if startsWithCI (c # cs) label then [] else c # beforeFirstCI label cs)"

text \<open>
  The escaped newline of the reports: the two characters backslash and \<open>n\<close>, which the
  source writes \<open>'\\n'\<close> in a string and \<open>/\\n/\<close> in a pattern.
\<close>

definition escapedNewline :: string where
  "escapedNewline = [CHR 0x5C, CHR ''n'']"

subsection \<open>parseInt\<close>

text \<open>
  \<open>parseInt(s)\<close> with no radix: leading white space is skipped, one sign is read, a
  prefix \<open>0x\<close> or \<open>0X\<close> selects radix 16, and the longest run of digits is the value;
  no digit at all gives \<open>NaN\<close>, which is \<open>None\<close> here. The result is an exact integer
  (the rounding of values above \<open>2^53\<close> is not modelled).
\<close>

definition digit10 :: "char \<Rightarrow> nat option" where
  "digit10 c = indexOfChar c ''0123456789''"

definition digit16 :: "char \<Rightarrow> nat option" where
  "digit16 c =
     (case indexOfChar c ''0123456789abcdef'' of
        Some v \<Rightarrow> Some v
      | None \<Rightarrow> map_option (\<lambda>v. v + 10) (indexOfChar c ''ABCDEF''))"

fun digitsValue :: "nat \<Rightarrow> (char \<Rightarrow> nat option) \<Rightarrow> nat option \<Rightarrow> string \<Rightarrow> nat option" where
  "digitsValue R d acc [] = acc"
| "digitsValue R d acc (c # cs) =
     (case d c of
        None \<Rightarrow> acc
      | Some v \<Rightarrow> digitsValue R d (Some (R * (case acc of None \<Rightarrow> 0 | Some a \<Rightarrow> a) + v)) cs)"

definition parseInt :: "string \<Rightarrow> int option" where
  "parseInt s =
     (let t = dropWhile isWhiteSpace s;
          neg = startsWith t ''-'';
          u = (if startsWith t ''-'' \<or> startsWith t ''+'' then drop 1 t else t);
          hex = (startsWith u ''0x'' \<or> startsWith u ''0X'');
          z = (if hex then digitsValue 16 digit16 None (drop 2 u)
               else digitsValue 10 digit10 None u)
      in map_option (\<lambda>n. if neg then - int n else int n) z)"

section \<open>TimeResolver: convertLocalToUTC\<close>

text \<open>
  \<open>Intl.DateTimeFormat\<close> belongs to the platform, so it is a parameter: for a time zone
  name, the constructor either throws or gives a formatter, and the formatter gives the
  text of \<open>formatter.format(date)\<close> for today's date set to the candidate UTC hour.
\<close>

type_synonym dateTimeFormat = "string \<Rightarrow> exn + (nat \<Rightarrow> string)"

text \<open>
  The loop of \<open>convertLocalToUTC\<close> over the candidates still to try. The \<open>try\<close> block
  encloses the whole loop, so a throwing constructor ends it with \<open>localHour\<close>; so does
  running out of candidates.
\<close>

fun tryCandidates :: "dateTimeFormat \<Rightarrow> int \<Rightarrow> string \<Rightarrow> nat list \<Rightarrow> int" where
  "tryCandidates intl localHour tz [] = localHour"
| "tryCandidates intl localHour tz (utcHourCandidate # rest) =
     (case intl tz of
        Inl e \<Rightarrow> localHour
      | Inr formatter \<Rightarrow>
          if parseInt (formatter utcHourCandidate) = Some localHour then int utcHourCandidate
          else tryCandidates intl localHour tz rest)"

definition convertLocalToUTC :: "dateTimeFormat \<Rightarrow> int \<Rightarrow> string \<Rightarrow> int" where
  "convertLocalToUTC intl localHour tz = tryCandidates intl localHour tz [0..<24]"

text \<open>
  The resolver returns from inside the loop (the non-degraded path) exactly when the
  constructor does not throw and some candidate renders to \<open>localHour\<close>.
\<close>

definition resolved :: "dateTimeFormat \<Rightarrow> int \<Rightarrow> string \<Rightarrow> bool" where
  "resolved intl localHour tz =
     (case intl tz of
        Inl e \<Rightarrow> False
      | Inr formatter \<Rightarrow> list_ex (\<lambda>h. parseInt (formatter h) = Some localHour) [0..<24])"

section \<open>ScheduleEvaluator: the selection loop of runScheduledWorkflows\<close>

text \<open>
  The columns of a user row that the selection reads. A column that is \<open>null\<close> is
  \<open>None\<close>; \<open>email_time_hour\<close> is an integer column.
\<close>

record user =
  email :: string
  timezone :: "string option"
  email_time_hour :: "int option"

text \<open>\<open>user.timezone || 'UTC'\<close>: \<open>null\<close> and the empty string are falsy.\<close>

definition timezoneOf :: "user \<Rightarrow> string" where
  "timezoneOf u = (case timezone u of None \<Rightarrow> ''UTC'' | Some tz \<Rightarrow> if tz = [] then ''UTC'' else tz)"

text \<open>\<open>user.email_time_hour || 9\<close>: \<open>null\<close> and the number 0 are falsy.\<close>

definition localHourOf :: "user \<Rightarrow> int" where
  "localHourOf u = (case email_time_hour u of None \<Rightarrow> 9 | Some h \<Rightarrow> if h = 0 then 9 else h)"

text \<open>The remainder \<open>%\<close> of JavaScript truncates: it is \<open>smod\<close> on integers.\<close>

definition scheduleOf :: "dateTimeFormat \<Rightarrow> user \<Rightarrow> int \<times> int" where
  "scheduleOf intl u =
     (let tz = timezoneOf u;
          localHour = localHourOf u;
          utcHour = convertLocalToUTC intl localHour tz;
          analysisHour = (utcHour - 1 + 24) smod 24
      in (utcHour, analysisHour))"

fun selectUsers ::
  "dateTimeFormat \<Rightarrow> int \<Rightarrow> user list \<Rightarrow> user list \<times> user list \<Rightarrow> user list \<times> user list" where
  "selectUsers intl currentHour [] (usersForAnalysis, usersForEmail) =
     (usersForAnalysis, usersForEmail)"
| "selectUsers intl currentHour (u # allUsers) (usersForAnalysis, usersForEmail) =
     (case scheduleOf intl u of (utcHour, analysisHour) \<Rightarrow>
        selectUsers intl currentHour allUsers
          (if analysisHour = currentHour then usersForAnalysis @ [u] else usersForAnalysis,
           if utcHour = currentHour then usersForEmail @ [u] else usersForEmail))"

definition dueSets :: "dateTimeFormat \<Rightarrow> int \<Rightarrow> user list \<Rightarrow> user list \<times> user list" where
  "dueSets intl currentHour allUsers = selectUsers intl currentHour allUsers ([], [])"

subsection \<open>A formatter for a zone with a fixed offset\<close>

text \<open>
  For evaluation at concrete inputs: a zone that is \<open>off\<close> hours ahead of UTC all year,
  its hour of day printed in decimal, as a 24-hour clock from 0 to 23.
\<close>

fun showDigits :: "nat \<Rightarrow> nat \<Rightarrow> string" where
  "showDigits 0 n = []"
| "showDigits (Suc k) n =
     (if n < 10 then [''0123456789'' ! n]
      else showDigits k (n div 10) @ [''0123456789'' ! (n mod 10)])"

definition showNat :: "nat \<Rightarrow> string" where
  "showNat n = showDigits (Suc n) n"

definition fixedOffset :: "nat \<Rightarrow> dateTimeFormat" where
  "fixedOffset off tz = Inr (\<lambda>h. showNat ((h + off) mod 24))"

text \<open>
  The same zone on a clock that counts the hours from 1 to 24, so that midnight is
  printed \<open>24\<close>: a formatter on which the local hour 0 is never rendered.
\<close>

definition fixedOffsetH24 :: "nat \<Rightarrow> dateTimeFormat" where
  "fixedOffsetH24 off tz =
     Inr (\<lambda>h. showNat (if (h + off) mod 24 = 0 then 24 else (h + off) mod 24))"

text \<open>
  A platform that knows two zones and rejects every other name with a \<open>RangeError\<close>,
  as the constructor does for a name that is not in its time zone database.
\<close>

definition knownZones :: dateTimeFormat where
  "knownZones tz =
     (if tz = ''UTC'' then fixedOffset 0 tz
      else if tz = ''Asia/Karachi'' then fixedOffset 5 tz
      else Inl RangeError)"

definition midnightUser :: user where
  "midnightUser = \<lparr>email = ''a@b.c'', timezone = Some ''UTC'', email_time_hour = Some 0\<rparr>"

definition nineUser :: user where
  "nineUser = \<lparr>email = ''d@e.f'', timezone = Some ''UTC'', email_time_hour = Some 9\<rparr>"

section \<open>TextSectionParser: the four renderers\<close>

text \<open>\<open>text.replace(/^- /, '').replace(/\\n/g, ' ').trim()\<close>\<close>

definition cleanListItemText :: "string \<Rightarrow> string" where
  "cleanListItemText text =
     trim (replaceAll escapedNewline '' '' (if startsWith text ''- '' then drop 2 text else text))"

text \<open>
  \<open>s.replace(/^\s*\d\.\s*([\w\s()]+:)?/i, '')\<close>: after leading white space, one digit
  and a dot, the white space that follows is removed, and with it a run of word
  characters, white space and parentheses when a colon ends that run (the colon too).
  The colon is not in the class of the run, so only the longest run can be followed by it.
\<close>

definition isHeaderChar :: "char \<Rightarrow> bool" where
  "isHeaderChar c = (isWordChar c \<or> isWhiteSpace c \<or> c = CHR ''('' \<or> c = CHR '')'')"

definition stripOrdinalHeader :: "string \<Rightarrow> string" where
  "stripOrdinalHeader s =
     (case dropWhile isWhiteSpace s of
        d # dot # rest \<Rightarrow>
          if isDigit d \<and> dot = CHR ''.'' then
            (let r = dropWhile isWhiteSpace rest;
                 run = takeWhile isHeaderChar r;
                 after = dropWhile isHeaderChar r
             in if run \<noteq> [] \<and> startsWith after '':'' then drop 1 after else r)
          else s
      | _ \<Rightarrow> s)"

definition createListHtml :: "jsval \<Rightarrow> string \<Rightarrow> exn + string" where
  "createListHtml str listTitle =
     (if typeof str \<noteq> ''string'' then Inr (''<p>No '' @ toLowerCase listTitle @ '' provided.</p>'')
      else bindE (stringReceiver str) (\<lambda>s.
        if trim s = [] then Inr (''<p>No '' @ toLowerCase listTitle @ '' provided.</p>'')
        else
          (let cleanedStr = trim (replaceAll ''---'' [] (stripOrdinalHeader (replaceAll ''**'' [] s)));
               items = filter (\<lambda>item. item \<noteq> [])
                         (map cleanListItemText (splitOn (escapedNewline @ ''- '') cleanedStr))
           in if length items = 0 \<or>
                 (length items = 1 \<and> \<not> includesStr cleanedStr (escapedNewline @ ''- ''))
              then Inr (''<p>'' @ replaceAll escapedNewline ''<br>'' cleanedStr @ ''</p>'')
              else Inr (''<ul>'' @
                     concat (map (\<lambda>itemText.
                       if itemText \<noteq> [] then ''<li>'' @ itemText @ ''</li>'' else []) items) @
                     ''</ul>''))))"

text \<open>
  The two patterns of the script renderer. \<open>/Visual Cues:([\s\S]*?)(Voiceover\/Script:|$)/i\<close>
  matches at the first \<open>Visual Cues:\<close>; its lazy group is the text up to the next
  \<open>Voiceover/Script:\<close>, or to the end. \<open>/Voiceover\/Script:([\s\S]*)/i\<close> matches at the
  first \<open>Voiceover/Script:\<close>; its group is the rest. \<open>None\<close> is no match.
\<close>

definition visualCuesGroup :: "string \<Rightarrow> string option" where
  "visualCuesGroup s =
     map_option (\<lambda>m. beforeFirstCI ''Voiceover/Script:'' (drop (length ''Visual Cues:'') m))
       (fromFirstCI ''Visual Cues:'' s)"

definition voiceoverGroup :: "string \<Rightarrow> string option" where
  "voiceoverGroup s =
     map_option (drop (length ''Voiceover/Script:'')) (fromFirstCI ''Voiceover/Script:'' s)"

definition formatSampleScriptHtml :: "jsval \<Rightarrow> exn + string" where
  "formatSampleScriptHtml scriptStr =
     (if typeof scriptStr \<noteq> ''string'' then Inr ''<p>No sample script provided.</p>''
      else bindE (stringReceiver scriptStr) (\<lambda>s.
        if trim s = [] then Inr ''<p>No sample script provided.</p>''
        else
          (let cleanedScriptStr = replaceAll ''**'' [] s;
               visualCuesMatch = visualCuesGroup cleanedScriptStr;
               voiceoverMatch = voiceoverGroup cleanedScriptStr;
               visual =
                 (case visualCuesMatch of
                    None \<Rightarrow> ''<h4>Visual Cues:</h4><p>Not specified.</p>''
                  | Some g \<Rightarrow>
                      if g \<noteq> [] \<and> trim g \<noteq> [] then
                        ''<h4>Visual Cues:</h4><ul>'' @
                        concat (map (\<lambda>item. ''<li>'' @ item @ ''</li>'')
                          (filter (\<lambda>line. line \<noteq> [])
                            (map cleanListItemText (splitOn (escapedNewline @ ''- '') g)))) @
                        ''</ul>''
                      else ''<h4>Visual Cues:</h4><p>Not specified.</p>'');
               voice =
                 (case voiceoverMatch of
                    None \<Rightarrow> ''<h4>Voiceover/Script:</h4><p>Not specified.</p>''
                  | Some g \<Rightarrow>
                      if g \<noteq> [] \<and> trim g \<noteq> [] then
                        ''<h4>Voiceover/Script:</h4>'' @ ''<p>'' @
                        trim (replaceAll [CHR ''*'', CHR 0x22] [CHR 0x22]
                          (replaceAll escapedNewline ''<br>'' g)) @
                        ''</p>''
                      else ''<h4>Voiceover/Script:</h4><p>Not specified.</p>'')
           in Inr (visual @ voice))))"

text \<open>
  The theme renderer. \<open>JSON.parse\<close> belongs to the platform and is a parameter: it
  gives a value or throws. Its \<open>catch\<close> branch splits the text and cleans each piece
  with \<open>theme.replace(/^\s*\*\s*/, '').replace(/\*\*/g, '').trim()\<close>.
\<close>

type_synonym jsonParser = "string \<Rightarrow> exn + jsval"

definition stripLeadingStar :: "string \<Rightarrow> string" where
  "stripLeadingStar s =
     (case dropWhile isWhiteSpace s of
        c # rest \<Rightarrow> if c = CHR ''*'' then dropWhile isWhiteSpace rest else s
      | [] \<Rightarrow> s)"

definition splitThemes :: "string \<Rightarrow> string list" where
  "splitThemes themesInput =
     filter (\<lambda>theme. theme \<noteq> [] \<and> theme \<noteq> ''*'' \<and> theme \<noteq> ''--'')
       (map (\<lambda>theme. trim (replaceAll ''**'' [] (stripLeadingStar theme)))
         (splitOn (escapedNewline @ ''- '') themesInput))"

text \<open>
  \<open>theme.replace(/^\s*[\d.]*\s*\*\s*/, '')\<close>: white space, digits and dots, white space
  and one asterisk with the white space after it are removed when they open the text in
  that order. The three classes are disjoint, so each run is the longest one.
\<close>

definition stripNumberedStar :: "string \<Rightarrow> string" where
  "stripNumberedStar s =
     (case dropWhile isWhiteSpace
             (dropWhile (\<lambda>c. isDigit c \<or> c = CHR ''.'') (dropWhile isWhiteSpace s)) of
        c # rest \<Rightarrow> if c = CHR ''*'' then dropWhile isWhiteSpace rest else s
      | [] \<Rightarrow> s)"

text \<open>\<open>/^\d+\.$/\<close>: one digit or more, then a dot, and nothing else.\<close>

definition isOrdinalToken :: "string \<Rightarrow> bool" where
  "isOrdinalToken s =
     (case rev s of
        dot # ds \<Rightarrow> dot = CHR ''.'' \<and> ds \<noteq> [] \<and> list_all isDigit ds
      | [] \<Rightarrow> False)"

text \<open>The body of \<open>themes.forEach\<close>: what one element adds to the list.\<close>

definition themeItemHtml :: "jsval \<Rightarrow> exn + string" where
  "themeItemHtml theme =
     (if typeof theme = ''string'' then
        bindE (stringReceiver theme) (\<lambda>t.
          (let stripped = replaceAll ''**'' [] (stripNumberedStar t);
               cleanedTheme = trim (if startsWith stripped ''- '' then drop 2 stripped else stripped)
           in if cleanedTheme \<noteq> [] \<and> length cleanedTheme > 1 \<and> cleanedTheme \<noteq> ''*'' \<and>
                 cleanedTheme \<noteq> ''--'' \<and> \<not> isOrdinalToken cleanedTheme
              then Inr (''<li>'' @ cleanedTheme @ ''</li>'')
              else Inr []))
      else Inr [])"

fun themeItemsHtml :: "jsval list \<Rightarrow> string \<Rightarrow> exn + string" where
  "themeItemsHtml [] acc = Inr acc"
| "themeItemsHtml (theme # rest) acc =
     (case themeItemHtml theme of
        Inl e \<Rightarrow> Inl e
      | Inr li \<Rightarrow> themeItemsHtml rest (acc @ li))"

text \<open>The second half of the renderer, from the test of \<open>themes\<close> on.\<close>

definition themesListHtml :: "jsval \<Rightarrow> exn + string" where
  "themesListHtml themes =
     (if \<not> isArray themes then Inr ''<p>No specific themes provided.</p>''
      else
        case arrayReceiver themes of
          Inl e \<Rightarrow> Inl e
        | Inr elems \<Rightarrow>
            if length elems = 0 then Inr ''<p>No specific themes provided.</p>''
            else
              case themeItemsHtml elems ''<ul>'' of
                Inl e \<Rightarrow> Inl e
              | Inr listed \<Rightarrow>
                  if includesStr (listed @ ''</ul>'') ''<li>'' then Inr (listed @ ''</ul>'')
                  else Inr ''<p>No specific themes provided.</p>'')"

definition formatContentThemesHtml :: "jsonParser \<Rightarrow> jsval \<Rightarrow> exn + string" where
  "formatContentThemesHtml jsonParse themesInput =
     (case (if isArray themesInput then Inr themesInput
            else if typeof themesInput = ''string'' then
              bindE (stringReceiver themesInput) (\<lambda>s.
                case jsonParse s of
                  Inr parsed \<Rightarrow> Inr parsed
                | Inl e \<Rightarrow> Inr (JArr (map JStr (splitThemes s))))
            else Inr (JArr [])) of
        Inl e \<Rightarrow> Inl e
      | Inr themes \<Rightarrow> themesListHtml themes)"

text \<open>
  The hashtag renderer walks the lines with four variables; they are the state of the
  walk. \<open>currentTitle\<close> is \<open>null\<close> (\<open>None\<close>) until a label line is met.
\<close>

record hashtagState =
  html :: string
  currentTitle :: "string option"
  currentHashtags :: "string list"
  foundContent :: bool

definition sectionTitles :: "string list" where
  "sectionTitles = [''Primary (Niche):'', ''Secondary (Trending/Regional):'', ''Broad Appeal:'']"

text \<open>
  Closing the open section, as the source does on a label line and once more after the
  last line.
\<close>

definition flushSection :: "hashtagState \<Rightarrow> hashtagState" where
  "flushSection st =
     (case currentTitle st of
        None \<Rightarrow> st
      | Some t \<Rightarrow>
          if length (currentHashtags st) > 0 then
            st\<lparr>html := html st @ ''<h4>'' @ t @ ''</h4><ul>'' @
                   concat (map (\<lambda>tag. ''<li>'' @ tag @ ''</li>'') (currentHashtags st)) @
                   ''</ul>'',
               foundContent := True\<rparr>
          else st\<lparr>html := html st @ ''<h4>'' @ t @ ''</h4><p>No specific hashtags listed.</p>''\<rparr>)"

text \<open>\<open>/^\s*\d\.\s*$/\<close>: one digit and a dot between optional white space.\<close>

definition isBareOrdinal :: "string \<Rightarrow> bool" where
  "isBareOrdinal s =
     (case dropWhile isWhiteSpace s of
        d # dot # rest \<Rightarrow> isDigit d \<and> dot = CHR ''.'' \<and> list_all isWhiteSpace rest
      | _ \<Rightarrow> False)"

definition hashtagLine :: "string \<Rightarrow> hashtagState \<Rightarrow> hashtagState" where
  "hashtagLine rawLine st =
     (let line = trim rawLine in
      case find (\<lambda>t. startsWith line t) sectionTitles of
        Some t \<Rightarrow>
          (let contentAfterTitle = trim (drop (length t) line)
           in (flushSection st)\<lparr>currentTitle := Some t,
                 currentHashtags :=
                   (if startsWith contentAfterTitle ''- ''
                    then [cleanListItemText contentAfterTitle] else [])\<rparr>)
      | None \<Rightarrow>
          if currentTitle st \<noteq> None \<and> line \<noteq> [] \<and> \<not> startsWith line ''---'' \<and>
             \<not> isBareOrdinal line \<and> toLowerCase line \<noteq> ''(e. g.,'' \<and>
             toLowerCase line \<noteq> ''(e.g.,''
          then (if startsWith line ''- ''
                then st\<lparr>currentHashtags := currentHashtags st @ [cleanListItemText line]\<rparr>
                else st)
          else st)"

definition formatHashtagStrategyHtml :: "jsval \<Rightarrow> exn + string" where
  "formatHashtagStrategyHtml str =
     (if typeof str \<noteq> ''string'' then Inr ''<p>No hashtag strategy provided.</p>''
      else bindE (stringReceiver str) (\<lambda>s.
        if trim s = [] then Inr ''<p>No hashtag strategy provided.</p>''
        else
          (let cleanedStr = replaceAll ''**'' [] s;
               walked = fold hashtagLine (splitOn escapedNewline cleanedStr)
                          \<lparr>html = [], currentTitle = None, currentHashtags = [],
                           foundContent = False\<rparr>;
               final = flushSection walked
           in if foundContent final \<or> includesStr (html final) ''<h4>'' then Inr (html final)
              else Inr ''<p>No hashtag strategy provided.</p>'')))"

section \<open>HtmlAssembler: formatMarketingStrategyToHtml\<close>

text \<open>
  \<open>Object.keys(v)\<close> throws on \<open>null\<close> and \<open>undefined\<close>; a string and an array have their
  indices as keys, a number and a boolean have none. Only the number of keys is read.
\<close>

fun objectKeys :: "jsval \<Rightarrow> exn + string list" where
  "objectKeys JUndefined = Inl TypeError"
| "objectKeys JNull = Inl TypeError"
| "objectKeys (JBool b) = Inr []"
| "objectKeys (JNum n) = Inr []"
| "objectKeys (JStr s) = Inr (map showNat [0..<length s])"
| "objectKeys (JArr xs) = Inr (map showNat [0..<length xs])"
| "objectKeys (JObj kvs) = Inr (remdups (map fst kvs))"

text \<open>
  \<open>v[k]\<close> for the eight names the assembler reads (none of them is a property of a
  string, an array, a number or a boolean): it throws on \<open>null\<close> and \<open>undefined\<close>.
\<close>

fun getProp :: "jsval \<Rightarrow> string \<Rightarrow> exn + jsval" where
  "getProp JUndefined k = Inl TypeError"
| "getProp JNull k = Inl TypeError"
| "getProp (JObj kvs) k = Inr (case map_of kvs k of None \<Rightarrow> JUndefined | Some v \<Rightarrow> v)"
| "getProp v k = Inr JUndefined"

record sectionSpec =
  title :: string
  key :: string
  processor :: "jsval \<Rightarrow> exn + string"

definition sections :: "jsonParser \<Rightarrow> sectionSpec list" where
  "sections jsonParse =
     [\<lparr>title = ''Observations'', key = ''observations'',
        processor = (\<lambda>content. createListHtml content ''Observations'')\<rparr>,
      \<lparr>title = ''Key Trend Takeaways'', key = ''keyTakeaways'',
        processor = (\<lambda>content. createListHtml content ''Key Trend Takeaways'')\<rparr>,
      \<lparr>title = ''Sample TikTok Script'', key = ''sampleScript'',
        processor = formatSampleScriptHtml\<rparr>,
      \<lparr>title = ''Technical Specifications'', key = ''technicalSpecifications'',
        processor = (\<lambda>content. createListHtml content ''Technical Specifications'')\<rparr>,
      \<lparr>title = ''General Content Themes'', key = ''contentThemes'',
        processor = formatContentThemesHtml jsonParse\<rparr>,
      \<lparr>title = ''Hashtag Strategy'', key = ''hashtagStrategy'',
        processor = formatHashtagStrategyHtml\<rparr>,
      \<lparr>title = ''Posting Frequency'', key = ''postingFrequency'',
        processor = (\<lambda>content. createListHtml content ''Posting Frequency'')\<rparr>]"

text \<open>
  The body of the loop over the sections, up to the decision: \<open>Some\<close> of the rendered
  fragment when the section is emitted, \<open>None\<close> when there is no content or the fragment
  is suppressed.
\<close>

definition sectionContent :: "jsval \<Rightarrow> sectionSpec \<Rightarrow> exn + jsval" where
  "sectionContent marketingStrategy sec =
     bindE (getProp marketingStrategy (key sec)) (\<lambda>direct.
       if truthy direct then Inr direct
       else if key sec = ''observations'' then getProp marketingStrategy ''rawContent''
       else Inr JNull)"

definition suppressed :: "string \<Rightarrow> bool" where
  "suppressed sectionHtml =
     (let lowered = toLowerCase sectionHtml
      in includesStr lowered ''no information provided'' \<or>
         includesStr lowered ''not specified'' \<or>
         includesStr lowered ''no specific'')"

definition sectionHtmlOf :: "jsval \<Rightarrow> sectionSpec \<Rightarrow> exn + string option" where
  "sectionHtmlOf marketingStrategy sec =
     bindE (sectionContent marketingStrategy sec) (\<lambda>content.
       if truthy content then
         bindE (processor sec content) (\<lambda>sectionHtml.
           if sectionHtml \<noteq> [] \<and> \<not> suppressed sectionHtml then Inr (Some sectionHtml)
           else Inr None)
       else Inr None)"

fun runSections :: "jsval \<Rightarrow> sectionSpec list \<Rightarrow> string \<times> bool \<Rightarrow> exn + string \<times> bool" where
  "runSections marketingStrategy [] (emailBodyHtml, hasContent) = Inr (emailBodyHtml, hasContent)"
| "runSections marketingStrategy (sec # rest) (emailBodyHtml, hasContent) =
     (case sectionHtmlOf marketingStrategy sec of
        Inl e \<Rightarrow> Inl e
      | Inr None \<Rightarrow> runSections marketingStrategy rest (emailBodyHtml, hasContent)
      | Inr (Some sectionHtml) \<Rightarrow>
          runSections marketingStrategy rest
            (emailBodyHtml @ ''<h3>'' @ title sec @ ''</h3>'' @ sectionHtml, True))"

text \<open>
  The trailer: \<open>postingFrequency.match(/This strategy balances[\s\S]*/i)\<close>, with its
  bold markers removed, its escaped newlines turned into spaces, trimmed, in a paragraph.
\<close>

definition trailerText :: "string \<Rightarrow> string" where
  "trailerText m = trim (replaceAll escapedNewline '' '' (replaceAll ''**'' [] m))"

definition trailerOf :: "jsval \<Rightarrow> string" where
  "trailerOf postingFrequency =
     (if truthy postingFrequency \<and> typeof postingFrequency = ''string'' then
        (case postingFrequency of
           JStr s \<Rightarrow>
             (case fromFirstCI ''This strategy balances'' s of
                Some m \<Rightarrow> if m \<noteq> [] then ''<p>'' @ trailerText m @ ''</p>'' else []
              | None \<Rightarrow> [])
         | _ \<Rightarrow> [])
      else [])"

text \<open>
  \<open>s.replace(/(<br>\s*){2,}/g, '<br>')\<close>. \<open>brRun\<close> reads the longest sequence of
  \<open><br>\<close>, each with the white space after it, at the head of the text, and gives
  their number and the rest; a sequence of two or more is one match.
\<close>

function brRun :: "string \<Rightarrow> nat \<times> string" where
  "brRun s =
     (if startsWith s ''<br>''
      then (case brRun (dropWhile isWhiteSpace (drop 4 s)) of (n, r) \<Rightarrow> (Suc n, r))
      else (0, s))"
  by pat_completeness auto
termination
proof (relation "measure length")
  show "wf (measure length)" by simp
next
  fix s :: string
  assume "startsWith s ''<br>''"
  then have "length s \<ge> 4"
    by (cases s; cases "tl s"; cases "tl (tl s)"; cases "tl (tl (tl s))") auto
  moreover have "length (dropWhile isWhiteSpace (drop 4 s)) \<le> length (drop 4 s)"
    by (rule length_dropWhile_le)
  ultimately show "(dropWhile isWhiteSpace (drop 4 s), s) \<in> measure length"
    by simp
qed

declare brRun.simps [simp del]

function collapseBreaks :: "string \<Rightarrow> string" where
  "collapseBreaks [] = []"
| "collapseBreaks (c # cs) =
     (case brRun (c # cs) of
        (n, r) \<Rightarrow> if 2 \<le> n then ''<br>'' @ collapseBreaks r else c # collapseBreaks cs)"
  by pat_completeness auto
termination
proof (relation "measure length")
  show "wf (measure length)" by simp
next
  fix c :: char and cs :: string and n :: nat and r :: string
  assume nr: "(n, r) = brRun (c # cs)" and n: "2 \<le> n"
  have step: "snd (brRun s) = snd (brRun (dropWhile isWhiteSpace (drop 4 s)))"
    if "startsWith s ''<br>''" for s
    using that by (subst brRun.simps) (simp add: case_prod_beta)
  have stop: "brRun s = (0, s)" if "\<not> startsWith s ''<br>''" for s
    using that by (subst brRun.simps) simp
  have shorter: "length (dropWhile isWhiteSpace (drop 4 s)) < length s"
    if "startsWith s ''<br>''" for s
  proof -
    from that have "length s \<ge> 4"
      by (cases s; cases "tl s"; cases "tl (tl s)"; cases "tl (tl (tl s))") auto
    moreover have "length (dropWhile isWhiteSpace (drop 4 s)) \<le> length (drop 4 s)"
      by (rule length_dropWhile_le)
    ultimately show ?thesis by simp
  qed
  have le: "length (snd (brRun s)) \<le> length s" for s
  proof (induction s rule: brRun.induct)
    case (1 s)
    show ?case
    proof (cases "startsWith s ''<br>''")
      case True
      from 1 [OF True] shorter [OF True] show ?thesis
        by (simp add: step [OF True])
    next
      case False
      then show ?thesis by (simp add: stop)
    qed
  qed
  have st: "startsWith (c # cs) ''<br>''"
  proof (rule ccontr)
    assume "\<not> startsWith (c # cs) ''<br>''"
    then have "brRun (c # cs) = (0, c # cs)" by (rule stop)
    with nr n show False by simp
  qed
  have "r = snd (brRun (c # cs))" using nr by (metis snd_conv)
  then have "r = snd (brRun (dropWhile isWhiteSpace (drop 4 (c # cs))))"
    using step [OF st] by simp
  then have "length r < length (c # cs)"
    using le [of "dropWhile isWhiteSpace (drop 4 (c # cs))"] shorter [OF st] by simp
  then show "(r, c # cs) \<in> measure length" by simp
next
  fix c :: char and cs :: string
  show "(cs, c # cs) \<in> measure length" by simp
qed

text \<open>
  The final pass, made once: escaped newlines become \<open><br>\<close>, two or more \<open><br>\<close>
  in a row become one, and the paragraphs that hold only a \<open><br>\<close> are removed.
\<close>

definition cleanup :: "string \<Rightarrow> string" where
  "cleanup emailBodyHtml =
     replaceAll ''<p><br></p>'' []
       (collapseBreaks (replaceAll escapedNewline ''<br>'' emailBodyHtml))"

definition emptyFragment :: string where
  "emptyFragment =
     ''<h2>Marketing Strategy & Content Ideas</h2><p>No detailed strategy information available.</p>''"

definition noContentFragment :: string where
  "noContentFragment =
     ''<h2>Marketing Strategy & Content Ideas</h2><p>No detailed strategy information available at this time.</p>''"

definition formatMarketingStrategyToHtml :: "jsonParser \<Rightarrow> jsval \<Rightarrow> exn + string" where
  "formatMarketingStrategyToHtml jsonParse marketingStrategy =
     (if \<not> truthy marketingStrategy then Inr emptyFragment
      else
        case objectKeys marketingStrategy of
          Inl e \<Rightarrow> Inl e
        | Inr keys \<Rightarrow>
            if length keys = 0 then Inr emptyFragment
            else
              case runSections marketingStrategy (sections jsonParse)
                     (''<h2>Marketing Strategy & Content Ideas</h2>'', False) of
                Inl e \<Rightarrow> Inl e
              | Inr (emailBodyHtml, hasContent) \<Rightarrow>
                  if \<not> hasContent then Inr noContentFragment
                  else
                    case getProp marketingStrategy ''postingFrequency'' of
                      Inl e \<Rightarrow> Inl e
                    | Inr postingFrequency \<Rightarrow>
                        Inr (cleanup (emailBodyHtml @ trailerOf postingFrequency)))"

section \<open>Inputs without content\<close>


text \<open>
  A themes value with nothing to list: an array none of whose elements gives an item
  (the empty array, an array without strings, an array whose strings are all discarded),
  a text that parses to such an array or to a value that is no array, a text that does
  not parse and none of whose pieces gives an item (a blank text is one), and any value
  that is neither an array nor a string.
\<close>

definition noThemes :: "jsonParser \<Rightarrow> jsval \<Rightarrow> bool" where
  "noThemes jsonParse v =
     (case v of
        JArr xs \<Rightarrow> list_all (\<lambda>x. themeItemHtml x = Inr []) xs
      | JStr s \<Rightarrow>
          (case jsonParse s of
             Inr (JArr ys) \<Rightarrow> list_all (\<lambda>x. themeItemHtml x = Inr []) ys
           | Inr w \<Rightarrow> True
           | Inl e \<Rightarrow> list_all (\<lambda>t. themeItemHtml (JStr t) = Inr []) (splitThemes s))
      | _ \<Rightarrow> True)"


text \<open>A text with no \<open><\<close> and no backslash: the final pass finds nothing to change in it.\<close>

definition plainText :: "string \<Rightarrow> bool" where
  "plainText t = list_all (\<lambda>c. c \<noteq> CHR ''<'' \<and> c \<noteq> CHR 0x5C) t"

text \<open>No occurrence of \<open>p\<close> can begin before \<open>y\<close> and end inside it.\<close>

definition noStraddle :: "string \<Rightarrow> string \<Rightarrow> bool" where
  "noStraddle p y = list_all (\<lambda>k. \<not> startsWith y (drop k p)) [1..<length p]"

subsection \<open>A parser for documents without themes\<close>

text \<open>
  \<open>JSON.parse\<close> is called only on a \<open>contentThemes\<close> field that is a string. The
  evaluations of documents whose \<open>contentThemes\<close> is absent or an array, and of the theme
  renderer on a blank text (which is no JSON text), fix the parameter to a parser that
  throws on every text; \<open>sections_parser_irrelevant\<close> below shows that the result for
  such documents is the same for every parser.
\<close>

definition rejectingParser :: jsonParser where
  "rejectingParser s = Inl SyntaxError"

section \<open>Properties of the resolver and of the selection\<close>

lemma mod24_cases:
  "0 \<le> (a::int) \<Longrightarrow> a < 48 \<Longrightarrow> a mod 24 = (if a < 24 then a else a - 24)"
proof (cases "a < 24")
  case True
  assume "0 \<le> a"
  with True show ?thesis by simp
next
  case False
  assume "a < 48"
  have "(a - 24) mod 24 = a - 24"
    using False \<open>a < 48\<close> by (intro mod_pos_pos_trivial) simp_all
  moreover have "(a - 24) mod 24 = a mod 24" by simp
  ultimately show ?thesis using False by simp
qed

lemma js_rem_nonneg: "0 \<le> a \<Longrightarrow> (a::int) smod 24 = a mod 24"
  by (simp add: signed_modulo_int_def sgn_if)

lemma tryCandidates_skip:
  "intl tz = Inr f \<Longrightarrow> \<forall>x \<in> set xs. parseInt (f x) \<noteq> Some lh \<Longrightarrow>
   tryCandidates intl lh tz (xs @ ys) = tryCandidates intl lh tz ys"
  by (induction xs) simp_all

lemma tryCandidates_first:
  assumes "intl tz = Inr f" "k < n" "parseInt (f k) = Some lh"
    and "\<forall>j<k. parseInt (f j) \<noteq> Some lh"
  shows "tryCandidates intl lh tz [0..<n] = int k"
proof -
  have "[0..<n] = [0..<k] @ k # [Suc k..<n]"
    using assms(2) by (metis less_imp_le_nat upt_add_eq_append upt_conv_Cons le0 le_add_diff_inverse)
  moreover have "\<forall>x \<in> set [0..<k]. parseInt (f x) \<noteq> Some lh"
    using assms(4) by simp
  ultimately show ?thesis
    using tryCandidates_skip [of intl tz f "[0..<k]" lh "k # [Suc k..<n]"] assms(1,3)
    by simp
qed

lemma tryCandidates_none:
  "intl tz = Inr f \<Longrightarrow> \<forall>x \<in> set xs. parseInt (f x) \<noteq> Some lh \<Longrightarrow>
   tryCandidates intl lh tz xs = lh"
  using tryCandidates_skip [of intl tz f xs lh "[]"] by simp

lemma tryCandidates_throw: "intl tz = Inl e \<Longrightarrow> tryCandidates intl lh tz xs = lh"
  by (cases xs) simp_all

lemma tryCandidates_found:
  "intl tz = Inr f \<Longrightarrow> \<exists>x \<in> set xs. parseInt (f x) = Some lh \<Longrightarrow>
   \<exists>x \<in> set xs. tryCandidates intl lh tz xs = int x"
  by (induction xs) auto

lemma resolved_range:
  assumes "resolved intl lh tz"
  shows "0 \<le> convertLocalToUTC intl lh tz \<and> convertLocalToUTC intl lh tz \<le> 23"
proof -
  from assms obtain f where f: "intl tz = Inr f"
    and ex: "\<exists>x \<in> set [0..<24]. parseInt (f x) = Some lh"
    by (auto simp: resolved_def list_ex_iff split: sum.splits)
  from tryCandidates_found [of intl tz f "[0..<24]" lh] f ex obtain x where "x < 24"
    and "tryCandidates intl lh tz [0..<24] = int x" by auto
  then show ?thesis by (simp add: convertLocalToUTC_def)
qed

lemma selectUsers_fst:
  "set (fst (selectUsers intl c us acc)) =
     set (fst acc) \<union> {u \<in> set us. snd (scheduleOf intl u) = c}"
proof (induction us arbitrary: acc)
  case Nil
  show ?case by (cases acc) simp
next
  case (Cons u us)
  show ?case by (cases acc) (auto simp: Cons.IH split: prod.splits)
qed

lemma selectUsers_snd:
  "set (snd (selectUsers intl c us acc)) =
     set (snd acc) \<union> {u \<in> set us. fst (scheduleOf intl u) = c}"
proof (induction us arbitrary: acc)
  case Nil
  show ?case by (cases acc) simp
next
  case (Cons u us)
  show ?case by (cases acc) (auto simp: Cons.IH split: prod.splits)
qed

lemma showNat_plus5:
  "\<forall>h<24. parseInt (showNat ((h + 5) mod 24)) = Some (int ((h + 5) mod 24))"
proof -
  have "\<forall>n \<in> set [0..<24]. parseInt (showNat n) = Some (int n)" by code_simp
  then show ?thesis by simp
qed

text \<open>
  C1. For every user of a tick, whenever the resolved UTC hour lies in 0 to 23 the
  analysis hour that the loop computes with the truncating remainder is
  \<open>(utcHour - 1 + 24) mod 24\<close>.
\<close>

theorem analysisHour_formula:
  "scheduleOf intl u = (utcHour, analysisHour) \<Longrightarrow> 0 \<le> utcHour \<Longrightarrow> utcHour \<le> 23 \<Longrightarrow>
   analysisHour = (utcHour - 1 + 24) mod 24"
  by (auto simp: scheduleOf_def Let_def js_rem_nonneg)

theorem analysisHour_formula_witness:
  "scheduleOf (fixedOffset 0) nineUser = (9, 8) \<and> (8::int) = (9 - 1 + 24) mod 24"
proof -
  have e: "scheduleOf (fixedOffset 0) nineUser = (9, 8)"
    by code_simp
  from analysisHour_formula [OF e] show ?thesis using e by simp
qed

text \<open>
  C2. When the resolver returns from inside its loop (no fallback) for a user's
  preference, that user is not in both the analysis list and the email list of a tick,
  whatever the current UTC hour and the population.
\<close>

theorem never_both_due:
  assumes "resolved intl (localHourOf u) (timezoneOf u)"
  shows "\<not> (u \<in> set (fst (dueSets intl currentHour allUsers)) \<and>
            u \<in> set (snd (dueSets intl currentHour allUsers)))"
proof
  assume both: "u \<in> set (fst (dueSets intl currentHour allUsers)) \<and>
            u \<in> set (snd (dueSets intl currentHour allUsers))"
  define utc where "utc = convertLocalToUTC intl (localHourOf u) (timezoneOf u)"
  have s: "scheduleOf intl u = (utc, (utc - 1 + 24) smod 24)"
    by (simp add: scheduleOf_def utc_def Let_def)
  from both have "snd (scheduleOf intl u) = currentHour" "fst (scheduleOf intl u) = currentHour"
    by (simp_all add: dueSets_def selectUsers_fst selectUsers_snd)
  then have eq: "(utc - 1 + 24) smod 24 = utc"
    by (simp add: s)
  from resolved_range [OF assms] have r: "0 \<le> utc" "utc \<le> 23"
    by (simp_all add: utc_def)
  then have "(utc - 1 + 24) smod 24 = (utc - 1 + 24) mod 24"
    by (intro js_rem_nonneg) simp
  with eq r show False by (simp add: mod24_cases split: if_splits)
qed

theorem never_both_due_witness:
  "resolved knownZones 9 ''UTC'' \<and>
   \<not> (nineUser \<in> set (fst (dueSets knownZones 9 [nineUser])) \<and>
      nineUser \<in> set (snd (dueSets knownZones 9 [nineUser])))"
proof -
  have r: "resolved knownZones 9 ''UTC''" by code_simp
  have "resolved knownZones (localHourOf nineUser) (timezoneOf nineUser)"
    using r by (simp add: localHourOf_def timezoneOf_def nineUser_def)
  from never_both_due [OF this] r show ?thesis by blast
qed

text \<open>
  C3. If the constructor throws for the time zone, or no candidate hour from 0 to 23
  renders to \<open>localHour\<close>, then \<open>convertLocalToUTC\<close> returns \<open>localHour\<close> itself. The
  function has no error result: its \<open>catch\<close> returns a value.
\<close>

theorem fallback_returns_localHour:
  assumes "(\<exists>e. intl tz = Inl e) \<or>
           (\<exists>f. intl tz = Inr f \<and> (\<forall>h<24. parseInt (f h) \<noteq> Some localHour))"
  shows "convertLocalToUTC intl localHour tz = localHour"
  using assms
  by (auto simp: convertLocalToUTC_def tryCandidates_throw intro: tryCandidates_none)

theorem fallback_returns_localHour_witness:
  "knownZones ''Mars/Olympus'' = Inl RangeError \<and>
   convertLocalToUTC knownZones 7 ''Mars/Olympus'' = 7 \<and>
   convertLocalToUTC (fixedOffsetH24 5) 0 ''Asia/Karachi'' = 0"
proof -
  have a: "knownZones ''Mars/Olympus'' = Inl RangeError"
    by (simp add: knownZones_def)
  have "\<forall>h \<in> set [0..<24].
          parseInt (showNat (if (h + 5) mod 24 = 0 then 24 else (h + 5) mod 24)) \<noteq> Some 0"
    by code_simp
  then have b: "\<forall>h<24.
          parseInt (showNat (if (h + 5) mod 24 = 0 then 24 else (h + 5) mod 24)) \<noteq> Some 0"
    by simp
  have c: "fixedOffsetH24 5 ''Asia/Karachi'' =
             Inr (\<lambda>h. showNat (if (h + 5) mod 24 = 0 then 24 else (h + 5) mod 24))"
    by (simp add: fixedOffsetH24_def)
  from fallback_returns_localHour [of knownZones "''Mars/Olympus''" 7] a
    fallback_returns_localHour [of "fixedOffsetH24 5" "''Asia/Karachi''" 0] b c
  show ?thesis by blast
qed

text \<open>
  C4. For a zone whose formatter renders every candidate hour \<open>h\<close> as the hour of day
  \<open>(h + 5) mod 24\<close> (a fixed offset of +5, no daylight saving), and every local hour from
  0 to 23, \<open>convertLocalToUTC\<close> returns \<open>(localHour - 5 + 24) mod 24\<close>.
\<close>

theorem fixed_offset_plus5:
  assumes f: "intl tz = Inr f"
    and r: "\<forall>h<24. parseInt (f h) = Some (int ((h + 5) mod 24))"
    and lo: "0 \<le> localHour" and hi: "localHour \<le> 23"
  shows "convertLocalToUTC intl localHour tz = (localHour - 5 + 24) mod 24"
proof -
  define k where "k = nat ((localHour - 5 + 24) mod 24)"
  have ik: "int k = (localHour - 5 + 24) mod 24" by (simp add: k_def)
  have ik': "int k = (if localHour < 5 then localHour + 19 else localHour - 5)"
    using lo hi unfolding ik by (simp add: mod24_cases)
  have k: "k < 24" using ik' hi by (simp split: if_splits)
  have r': "parseInt (f h) = Some ((int h + 5) mod 24)" if "h < 24" for h
    using r that by (simp add: zmod_int)
  have m: "(int k + 5) mod 24 = localHour"
    using lo hi by (simp add: ik' mod24_cases)
  have u: "\<forall>j<k. parseInt (f j) \<noteq> Some localHour"
  proof (intro allI impI)
    fix j assume jk: "j < k"
    then have j: "j < 24" using k by simp
    from jk have "int j < int k" by simp
    then have "(int j + 5) mod 24 \<noteq> localHour"
      using lo hi j by (simp add: ik' mod24_cases split: if_splits)
    then show "parseInt (f j) \<noteq> Some localHour" using r' [OF j] by simp
  qed
  have "tryCandidates intl localHour tz [0..<24] = int k"
    using tryCandidates_first [of intl tz f k 24 localHour] f u r' [OF k] k m by simp
  then show ?thesis by (simp add: convertLocalToUTC_def ik)
qed

theorem fixed_offset_plus5_witness:
  "convertLocalToUTC (fixedOffset 5) 9 ''Asia/Karachi'' = 4"
  using fixed_offset_plus5 [of "fixedOffset 5" "''Asia/Karachi''" "\<lambda>h. showNat ((h + 5) mod 24)" 9]
    showNat_plus5
  by (simp add: fixedOffset_def)

text \<open>
  C9. A stored hour of 0 is falsy for \<open>||\<close>, so the loop reads it as 9: the user who
  asked for midnight in the zone UTC is due for email at 9 UTC and not at 0 UTC.
\<close>

theorem midnight_hour_replaced_by_default:
  "localHourOf midnightUser = 9 \<and>
   dueSets knownZones 0 [midnightUser] = ([], []) \<and>
   dueSets knownZones 9 [midnightUser] = ([], [midnightUser])"
  by code_simp

section \<open>Properties of the renderers\<close>
















lemma trim_empty_iff: "trim s = [] \<longleftrightarrow> list_all isWhiteSpace s"
proof
  assume "list_all isWhiteSpace s"
  then have d: "dropWhile isWhiteSpace s = []" by (metis dropWhile_eq_Nil_conv list_all_iff)
  show "trim s = []" unfolding trim_def d by simp
next
  assume t: "trim s = []"
  show "list_all isWhiteSpace s"
  proof (rule ccontr)
    assume "\<not> list_all isWhiteSpace s"
    then obtain c cs where d: "dropWhile isWhiteSpace s = c # cs" and c: "\<not> isWhiteSpace c"
      by (metis dropWhile_eq_Nil_conv hd_dropWhile list.exhaust list.sel(1) list_all_iff)
    have "c \<in> set (rev (c # cs))" by simp
    then have "dropWhile isWhiteSpace (rev (c # cs)) \<noteq> []"
      using c by (metis dropWhile_eq_Nil_conv)
    with t d show False by (simp add: trim_def)
  qed
qed

lemma startsWith_hd: "startsWith s (p # ps) \<Longrightarrow> s \<noteq> [] \<and> hd s = p"
  by (cases s) simp_all

lemma splitOn_absent:
  "\<forall>c \<in> set s. c \<noteq> p \<Longrightarrow> splitOn (p # ps) s = [s]"
  by (induction s) (auto dest: startsWith_hd)

lemma replaceAll_absent:
  "\<forall>c \<in> set s. c \<noteq> p \<Longrightarrow> replaceAll (p # ps) rep s = s"
  by (induction s) (auto dest: startsWith_hd)

lemma blank_no_char:
  "list_all isWhiteSpace s \<Longrightarrow> \<not> isWhiteSpace p \<Longrightarrow> \<forall>c \<in> set s. c \<noteq> p"
  by (auto simp: list_all_iff)

lemma splitThemes_blank:
  assumes "trim s = []"
  shows "splitThemes s = []"
proof -
  from assms have b: "list_all isWhiteSpace s" by (simp add: trim_empty_iff)
  have nb: "\<not> isWhiteSpace (CHR 0x5C)" and ns: "\<not> isWhiteSpace (CHR ''*'')"
    by (simp_all add: isWhiteSpace_def)
  have 1: "splitOn (escapedNewline @ ''- '') s = [s]"
    unfolding escapedNewline_def using splitOn_absent [OF blank_no_char [OF b nb]] by simp
  from b have d: "dropWhile isWhiteSpace s = []" by (metis dropWhile_eq_Nil_conv list_all_iff)
  have 2: "stripLeadingStar s = s" unfolding stripLeadingStar_def d by simp
  have 3: "replaceAll ''**'' [] s = s"
    using replaceAll_absent [OF blank_no_char [OF b ns]] by simp
  show ?thesis by (simp add: splitThemes_def 1 2 3 assms)
qed





text \<open>
  An array without strings, and a blank text that does not parse, have nothing to list.
\<close>

lemma noThemes_no_strings:
  "list_all (\<lambda>x. typeof x \<noteq> ''string'') xs \<Longrightarrow> noThemes jsonParse (JArr xs)"
  by (simp add: noThemes_def themeItemHtml_def list_all_iff)

lemma noThemes_blank:
  "trim s = [] \<Longrightarrow> jsonParse s = Inl e \<Longrightarrow> noThemes jsonParse (JStr s)"
  by (simp add: noThemes_def splitThemes_blank)





text \<open>
  C10. The list renderer on the text \<open>- a\n- b\<close> (with the escaped newline) and the
  label \<open>X\<close> gives the two-item list, and on the empty text it gives the paragraph
  \<open>No x provided.\<close>
\<close>

theorem list_renderer_examples:
  "createListHtml (JStr (''- a'' @ escapedNewline @ ''- b'')) ''X'' =
     Inr ''<ul><li>a</li><li>b</li></ul>'' \<and>
   createListHtml (JStr []) ''X'' = Inr ''<p>No x provided.</p>''"
  by code_simp

text \<open>
  A text that holds only markers is not blank, and what is left of it after the cleaning
  is rendered as it is: the list renderer gives an empty paragraph, the script renderer
  an empty list.
\<close>

lemma script_renderer_empty_list:
  "formatSampleScriptHtml (JStr (''Visual Cues:'' @ escapedNewline @ ''- '')) =
     Inr ''<h4>Visual Cues:</h4><ul></ul><h4>Voiceover/Script:</h4><p>Not specified.</p>''"
  by code_simp




section \<open>Properties of the assembler\<close>

lemma runSections_none:
  "list_all (\<lambda>sec. sectionHtmlOf d sec = Inr None) secs \<Longrightarrow> runSections d secs st = Inr st"
proof (induction secs arbitrary: st)
  case Nil
  show ?case by (cases st) simp
next
  case (Cons sec secs)
  then show ?case by (cases st) simp
qed

lemma emptyFragment_neq: "emptyFragment \<noteq> noContentFragment"
  by (simp add: emptyFragment_def noContentFragment_def)

lemma fromFirstCI_nonempty: "fromFirstCI (p # ps) s = Some m \<Longrightarrow> m \<noteq> []"
  by (induction s) (auto split: if_splits)

lemma getProp_string_object:
  "getProp d k = Inr (JStr pf) \<Longrightarrow> \<exists>kvs. d = JObj kvs \<and> kvs \<noteq> []"
  by (cases d) (auto split: option.splits)

lemma sectionHtmlOf_falsy_field:
  assumes "map_of kvs k = None" "\<not> truthy v"
  shows "sectionHtmlOf (JObj ((k, v) # kvs)) sec = sectionHtmlOf (JObj kvs) sec"
  using assms
  by (auto simp: sectionHtmlOf_def sectionContent_def bindE_def split: option.splits)

lemma runSections_cong:
  "(\<And>sec. sec \<in> set secs \<Longrightarrow> sectionHtmlOf d1 sec = sectionHtmlOf d2 sec) \<Longrightarrow>
   runSections d1 secs st = runSections d2 secs st"
proof (induction secs arbitrary: st)
  case Nil
  show ?case by (cases st) simp
next
  case (Cons sec secs)
  have "sectionHtmlOf d1 sec = sectionHtmlOf d2 sec" using Cons.prems by simp
  moreover have "runSections d1 secs st' = runSections d2 secs st'" for st'
    using Cons.IH Cons.prems by simp
  ultimately show ?case by (cases st) (simp split: sum.splits option.splits)
qed

lemma trailerOf_falsy: "\<not> truthy v \<Longrightarrow> trailerOf v = []"
  by (simp add: trailerOf_def)

lemma runSections_pairwise:
  "list_all2 (\<lambda>a b. title a = title b \<and> sectionHtmlOf d a = sectionHtmlOf d b) xs ys \<Longrightarrow>
   runSections d xs st = runSections d ys st"
proof (induction xs ys arbitrary: st rule: list_all2_induct)
  case Nil
  show ?case by simp
next
  case (Cons x xs y ys)
  then show ?case by (cases st) (simp split: sum.splits option.splits)
qed

lemma formatContentThemesHtml_no_string:
  "typeof c \<noteq> ''string'' \<Longrightarrow>
   formatContentThemesHtml jsonParse c = formatContentThemesHtml jsonParse' c"
  by (cases c) (simp_all add: formatContentThemesHtml_def)

lemma sections_parser_irrelevant:
  assumes c: "getProp d ''contentThemes'' = Inr c" and ns: "typeof c \<noteq> ''string'' \<or> \<not> truthy c"
  shows "formatMarketingStrategyToHtml jsonParse d = formatMarketingStrategyToHtml jsonParse' d"
proof -
  have th: "sectionHtmlOf d \<lparr>title = t, key = ''contentThemes'',
                processor = formatContentThemesHtml jsonParse\<rparr> =
            sectionHtmlOf d \<lparr>title = t, key = ''contentThemes'',
                processor = formatContentThemesHtml jsonParse'\<rparr>" for t
  proof (cases "truthy c")
    case True
    with ns have "typeof c \<noteq> ''string''" by simp
    then have "formatContentThemesHtml jsonParse c = formatContentThemesHtml jsonParse' c"
      by (rule formatContentThemesHtml_no_string)
    with c True show ?thesis
      by (simp add: sectionHtmlOf_def sectionContent_def bindE_def)
  next
    case False
    with c show ?thesis by (simp add: sectionHtmlOf_def sectionContent_def bindE_def)
  qed
  have r: "runSections d (sections jsonParse) st = runSections d (sections jsonParse') st" for st
    by (rule runSections_pairwise) (simp add: sections_def th)
  show ?thesis unfolding formatMarketingStrategyToHtml_def r by simp
qed

lemma startsWith_append_short:
  "startsWith (x @ y) p \<Longrightarrow> length x < length p \<Longrightarrow> startsWith y (drop (length x) p)"
proof (induction x p rule: startsWith.induct)
  case (1 s)
  then show ?case by simp
next
  case (2 q qs)
  then show ?case by simp
next
  case (3 c cs q qs)
  then show ?case by simp
qed

lemma startsWith_append_long:
  "length p \<le> length x \<Longrightarrow> startsWith (x @ y) p = startsWith x p"
proof (induction x p rule: startsWith.induct)
  case (1 s)
  then show ?case by simp
next
  case (2 q qs)
  then show ?case by simp
next
  case (3 c cs q qs)
  then show ?case by simp
qed

lemma startsWith_length: "startsWith x p \<Longrightarrow> length p \<le> length x"
  by (induction x p rule: startsWith.induct) simp_all

lemma startsWith_append_iff:
  assumes "noStraddle p y" "x \<noteq> []"
  shows "startsWith (x @ y) p = startsWith x p"
proof (cases "length p \<le> length x")
  case True
  then show ?thesis by (rule startsWith_append_long)
next
  case False
  then have short: "length x < length p" by simp
  have "\<not> startsWith x p" using startsWith_length short by fastforce
  moreover have "\<not> startsWith (x @ y) p"
  proof
    assume "startsWith (x @ y) p"
    from startsWith_append_short [OF this short]
    have "startsWith y (drop (length x) p)" .
    moreover have "length x \<in> set [1..<length p]" using short assms(2) by (cases x) simp_all
    ultimately show False using assms(1) by (auto simp: noStraddle_def list_all_iff)
  qed
  ultimately show ?thesis by simp
qed

lemma replaceAll_append:
  "noStraddle p y \<Longrightarrow> replaceAll p rep (x @ y) = replaceAll p rep x @ replaceAll p rep y"
proof (induction p rep x rule: replaceAll.induct)
  case (1 pat rep)
  show ?case by simp
next
  case (2 pat rep c cs)
  have sw: "startsWith ((c # cs) @ y) pat = startsWith (c # cs) pat"
    using "2.prems" by (intro startsWith_append_iff) simp_all
  show ?case
  proof (cases "pat \<noteq> [] \<and> startsWith (c # cs) pat")
    case True
    then have len: "length pat \<le> length (c # cs)" using startsWith_length by blast
    have d: "drop (length pat) ((c # cs) @ y) = drop (length pat) (c # cs) @ y"
      using len drop_append [of "length pat" "c # cs" y] by (simp del: drop_append)
    have "replaceAll pat rep ((c # cs) @ y) =
            rep @ replaceAll pat rep (drop (length pat) ((c # cs) @ y))"
      using True sw by simp
    then have l: "replaceAll pat rep ((c # cs) @ y) =
            rep @ replaceAll pat rep (drop (length pat) (c # cs) @ y)"
      unfolding d .
    have r: "replaceAll pat rep (c # cs) = rep @ replaceAll pat rep (drop (length pat) (c # cs))"
      using True by simp
    show ?thesis unfolding l r "2.IH"(1) [OF True "2.prems"] by simp
  next
    case False
    then have "\<not> (pat \<noteq> [] \<and> startsWith ((c # cs) @ y) pat)" using sw by simp
    then have l: "replaceAll pat rep ((c # cs) @ y) = c # replaceAll pat rep (cs @ y)"
      by auto
    have r: "replaceAll pat rep (c # cs) = c # replaceAll pat rep cs"
      using False by auto
    show ?thesis unfolding l r "2.IH"(2) [OF False "2.prems"] by simp
  qed
qed

lemma replaceAll_skip:
  "\<forall>c \<in> set t. c \<noteq> p \<Longrightarrow> replaceAll (p # ps) rep (t @ z) = t @ replaceAll (p # ps) rep z"
proof (induction t)
  case Nil
  show ?case by simp
next
  case (Cons c t)
  then have "\<not> startsWith (c # t @ z) (p # ps)" by simp
  with Cons show ?case by simp
qed

lemma brRun_stop: "\<not> startsWith s ''<br>'' \<Longrightarrow> brRun s = (0, s)"
  by (subst brRun.simps) simp

lemma brRun_step:
  "startsWith s ''<br>'' \<Longrightarrow>
   brRun s = (Suc (fst (brRun (dropWhile isWhiteSpace (drop 4 s)))),
              snd (brRun (dropWhile isWhiteSpace (drop 4 s))))"
  by (subst brRun.simps) (simp add: case_prod_beta)

lemma dropWhile_append_stop:
  "y \<noteq> [] \<Longrightarrow> \<not> P (hd y) \<Longrightarrow> dropWhile P (x @ y) = dropWhile P x @ y"
  by (induction x) (auto simp: neq_Nil_conv)

lemma brRun_append:
  assumes y: "y \<noteq> []" "\<not> isWhiteSpace (hd y)" "noStraddle ''<br>'' y" "\<not> startsWith y ''<br>''"
  shows "brRun (x @ y) = (fst (brRun x), snd (brRun x) @ y)"
proof (induction x rule: brRun.induct)
  case (1 s)
  show ?case
  proof (cases "startsWith s ''<br>''")
    case True
    then have len: "4 \<le> length s" using startsWith_length by fastforce
    then have sw: "startsWith (s @ y) ''<br>''" using True by (simp add: startsWith_append_long)
    have d: "dropWhile isWhiteSpace (drop 4 (s @ y)) = dropWhile isWhiteSpace (drop 4 s) @ y"
      using len y(1,2) by (simp add: dropWhile_append_stop)
    show ?thesis
      unfolding brRun_step [OF sw] brRun_step [OF True] d "1.IH" [OF True] by simp
  next
    case False
    have "\<not> startsWith (s @ y) ''<br>''"
    proof (cases "s = []")
      case True
      then show ?thesis using y(4) by simp
    next
      case ne: False
      then show ?thesis using False startsWith_append_iff [OF y(3) ne] by simp
    qed
    then show ?thesis using False by (simp add: brRun_stop)
  qed
qed

lemma collapseBreaks_append:
  assumes y: "y \<noteq> []" "\<not> isWhiteSpace (hd y)" "noStraddle ''<br>'' y" "\<not> startsWith y ''<br>''"
  shows "collapseBreaks (x @ y) = collapseBreaks x @ collapseBreaks y"
proof (induction x rule: collapseBreaks.induct)
  case 1
  show ?case by simp
next
  case (2 c cs)
  obtain n r where nr: "brRun (c # cs) = (n, r)" by (cases "brRun (c # cs)")
  have b: "brRun ((c # cs) @ y) = (n, r @ y)" using brRun_append [OF y, of "c # cs"] nr by simp
  show ?case
  proof (cases "2 \<le> n")
    case True
    have "collapseBreaks ((c # cs) @ y) = ''<br>'' @ collapseBreaks (r @ y)"
      using b True by simp
    also have "collapseBreaks (r @ y) = collapseBreaks r @ collapseBreaks y"
      using "2.IH"(1) [OF nr [symmetric] True] .
    finally show ?thesis using nr True by simp
  next
    case False
    have "collapseBreaks ((c # cs) @ y) = c # collapseBreaks (cs @ y)"
      using b False by simp
    also have "collapseBreaks (cs @ y) = collapseBreaks cs @ collapseBreaks y"
      using "2.IH"(2) [OF nr [symmetric] False] .
    finally show ?thesis using nr False by simp
  qed
qed

lemma collapseBreaks_skip:
  "\<forall>c \<in> set t. c \<noteq> CHR ''<'' \<Longrightarrow> collapseBreaks (t @ z) = t @ collapseBreaks z"
proof (induction t)
  case Nil
  show ?case by simp
next
  case (Cons c t)
  then have "\<not> startsWith (c # t @ z) ''<br>''" by simp
  then have "brRun (c # t @ z) = (0, c # t @ z)" by (rule brRun_stop)
  with Cons show ?case by simp
qed


lemma collapseBreaks_nomatch:
  "\<not> startsWith (c # z) ''<br>'' \<Longrightarrow> collapseBreaks (c # z) = c # collapseBreaks z"
  by (simp add: brRun_stop)

lemma paragraph_head:
  "noStraddle escapedNewline (''<p>'' @ z)"
  "noStraddle ''<br>'' (''<p>'' @ z)"
  "noStraddle ''<p><br></p>'' (''<p>'' @ z)"
  by (simp_all add: noStraddle_def escapedNewline_def upt_rec)

lemma paragraph_no_newline:
  assumes "plainText t"
  shows "replaceAll escapedNewline rep (''<p>'' @ t @ ''</p>'') = ''<p>'' @ t @ ''</p>''"
proof -
  have "\<forall>c \<in> set (''<p>'' @ t @ ''</p>''). c \<noteq> CHR 0x5C"
    using assms by (auto simp: plainText_def list_all_iff)
  then show ?thesis unfolding escapedNewline_def by (rule replaceAll_absent)
qed

lemma paragraph_no_breaks:
  assumes "plainText t"
  shows "collapseBreaks (''<p>'' @ t @ ''</p>'') = ''<p>'' @ t @ ''</p>''"
proof -
  have t: "\<forall>c \<in> set t. c \<noteq> CHR ''<''" using assms by (simp add: plainText_def list_all_iff)
  have "collapseBreaks (''<p>'' @ t @ ''</p>'') = ''<p>'' @ collapseBreaks (t @ ''</p>'')"
    by (simp add: collapseBreaks_nomatch del: collapseBreaks.simps)
  also have "collapseBreaks (t @ ''</p>'') = t @ collapseBreaks ''</p>''"
    using t by (rule collapseBreaks_skip)
  also have "collapseBreaks ''</p>'' = ''</p>''"
    by (simp add: collapseBreaks_nomatch del: collapseBreaks.simps(2))
  finally show ?thesis .
qed

lemma paragraph_not_empty:
  assumes "plainText t"
  shows "replaceAll ''<p><br></p>'' rep (''<p>'' @ t @ ''</p>'') = ''<p>'' @ t @ ''</p>''"
proof -
  have t: "\<forall>c \<in> set t. c \<noteq> CHR ''<''" using assms by (simp add: plainText_def list_all_iff)
  have h: "\<not> startsWith (t @ ''</p>'') ''<br></p>''"
    using t by (cases t) simp_all
  have "replaceAll ''<p><br></p>'' rep (''<p>'' @ t @ ''</p>'') =
          ''<p>'' @ replaceAll ''<p><br></p>'' rep (t @ ''</p>'')"
    using h by simp
  also have "replaceAll ''<p><br></p>'' rep (t @ ''</p>'') = t @ replaceAll ''<p><br></p>'' rep ''</p>''"
    using t by (rule replaceAll_skip)
  also have "replaceAll ''<p><br></p>'' rep ''</p>'' = ''</p>''"
    by simp
  finally show ?thesis .
qed

lemma cleanup_paragraph:
  assumes "plainText t"
  shows "cleanup (x @ ''<p>'' @ t @ ''</p>'') = cleanup x @ ''<p>'' @ t @ ''</p>''"
proof -
  let ?y = "''<p>'' @ t @ ''</p>''"
  have y: "?y \<noteq> []" "\<not> isWhiteSpace (hd ?y)" "\<not> startsWith ?y ''<br>''"
    by (simp_all add: isWhiteSpace_def)
  have 1: "replaceAll escapedNewline ''<br>'' (x @ ?y) =
             replaceAll escapedNewline ''<br>'' x @ ?y"
    using replaceAll_append [OF paragraph_head(1), where z1 = "t @ ''</p>''" and rep = "''<br>''" and x = x]
      paragraph_no_newline [OF assms, of "''<br>''"] by simp
  have 2: "collapseBreaks (x' @ ?y) = collapseBreaks x' @ ?y" for x'
    using collapseBreaks_append [OF y(1,2) paragraph_head(2) y(3), where x = x']
      paragraph_no_breaks [OF assms] by simp
  have 3: "replaceAll ''<p><br></p>'' [] (x' @ ?y) = replaceAll ''<p><br></p>'' [] x' @ ?y" for x'
    using replaceAll_append [OF paragraph_head(3), where z1 = "t @ ''</p>''" and rep = "[]" and x = x']
      paragraph_not_empty [OF assms, of "[]"] by simp
  show ?thesis unfolding cleanup_def 1 2 3 ..
qed

text \<open>
  A blank field is not suppressed: the list renderer's placeholder holds none of the
  three phrases the loop looks for.
\<close>

lemma blank_field_is_emitted:
  "formatMarketingStrategyToHtml rejectingParser (JObj [(''observations'', JStr ''  '')]) =
     Inr ''<h2>Marketing Strategy & Content Ideas</h2><h3>Observations</h3><p>No observations provided.</p>''"
  by code_simp

text \<open>
  C6, as the claim states it, fails: the empty document and a document whose only
  section is suppressed get two different fragments.
\<close>

theorem empty_and_suppressed_differ:
  "formatMarketingStrategyToHtml rejectingParser (JObj []) \<noteq>
   formatMarketingStrategyToHtml rejectingParser (JObj [(''contentThemes'', JArr [])])"
  by code_simp

text \<open>
  C6, amended. A document that is falsy or has no key gets the fragment that ends
  \<open>available.\<close>; a document with a key none of whose sections survives gets the fragment
  that ends \<open>available at this time.\<close>; the two fragments differ.
\<close>

theorem degenerate_fragments:
  "((\<not> truthy d \<or> objectKeys d = Inr []) \<longrightarrow>
      formatMarketingStrategyToHtml jsonParse d = Inr emptyFragment) \<and>
   (truthy d \<and> (\<exists>ks. objectKeys d = Inr ks \<and> ks \<noteq> []) \<and>
      list_all (\<lambda>sec. sectionHtmlOf d sec = Inr None) (sections jsonParse) \<longrightarrow>
      formatMarketingStrategyToHtml jsonParse d = Inr noContentFragment) \<and>
   emptyFragment \<noteq> noContentFragment"
  by (auto simp: formatMarketingStrategyToHtml_def runSections_none emptyFragment_neq)

theorem degenerate_fragments_witness:
  "formatMarketingStrategyToHtml rejectingParser (JObj []) = Inr emptyFragment \<and>
   formatMarketingStrategyToHtml rejectingParser (JObj [(''contentThemes'', JArr [])]) =
     Inr noContentFragment"
proof -
  have a: "objectKeys (JObj []) = Inr []" by simp
  have b: "truthy (JObj [(''contentThemes'', JArr [])])" by simp
  have c: "objectKeys (JObj [(''contentThemes'', JArr [])]) = Inr [''contentThemes'']" by simp
  have d: "list_all (\<lambda>sec. sectionHtmlOf (JObj [(''contentThemes'', JArr [])]) sec = Inr None)
             (sections rejectingParser)" by code_simp
  from degenerate_fragments [of "JObj []" rejectingParser] a
    degenerate_fragments [of "JObj [(''contentThemes'', JArr [])]" rejectingParser] b c d
  show ?thesis by blast
qed

text \<open>
  C7, as the claim states it, fails: when the posting frequency section is itself
  suppressed and no other section survives, the fixed fragment is returned and the
  sentence is not in it.
\<close>

theorem trailer_lost_without_sections:
  "formatMarketingStrategyToHtml rejectingParser
     (JObj [(''postingFrequency'', JStr ''This strategy balances no specific goals.'')]) =
     Inr noContentFragment \<and>
   \<not> includesStr noContentFragment ''This strategy balances''"
  by code_simp

text \<open>
  C7, amended. When the posting frequency field is a string in which
  \<open>This strategy balances\<close> occurs (in any case) and at least one section survived, the
  output is the final pass applied to the assembled sections followed by one paragraph
  that holds the text from the first occurrence to the end, its bold markers removed,
  its escaped newlines replaced by spaces, trimmed. When that text has no \<open><\<close> and no
  backslash, the final pass leaves the paragraph as it is: the output ends with it, after
  the sections as the final pass leaves them.
\<close>

theorem trailer_after_surviving_sections:
  assumes pf: "getProp d ''postingFrequency'' = Inr (JStr pf)"
    and m: "fromFirstCI ''This strategy balances'' pf = Some m"
    and run: "runSections d (sections jsonParse)
                (''<h2>Marketing Strategy & Content Ideas</h2>'', False) = Inr (body, True)"
  shows "formatMarketingStrategyToHtml jsonParse d =
           Inr (cleanup (body @ ''<p>'' @ trailerText m @ ''</p>'')) \<and>
         (plainText (trailerText m) \<longrightarrow>
            formatMarketingStrategyToHtml jsonParse d =
              Inr (cleanup body @ ''<p>'' @ trailerText m @ ''</p>''))"
proof -
  from getProp_string_object [OF pf] obtain kvs where d: "d = JObj kvs" and ne: "kvs \<noteq> []"
    by blast
  from ne have keys: "remdups (map fst kvs) \<noteq> []" by simp
  from m have mne: "m \<noteq> []" by (rule fromFirstCI_nonempty)
  from m have "pf \<noteq> []" by (cases pf) simp_all
  then have t: "trailerOf (JStr pf) = ''<p>'' @ trailerText m @ ''</p>''"
    using m mne by (simp add: trailerOf_def)
  have out: "formatMarketingStrategyToHtml jsonParse d =
               Inr (cleanup (body @ ''<p>'' @ trailerText m @ ''</p>''))"
    unfolding formatMarketingStrategyToHtml_def
    using keys run pf t by (simp add: d)
  then show ?thesis using cleanup_paragraph [of "trailerText m" body] by simp
qed

theorem trailer_after_surviving_sections_witness:
  "formatMarketingStrategyToHtml rejectingParser
     (JObj [(''postingFrequency'', JStr ''This strategy balances a and b.'')]) =
   Inr (cleanup ''<h2>Marketing Strategy & Content Ideas</h2><h3>Posting Frequency</h3><p>This strategy balances a and b.</p>'' @
        ''<p>This strategy balances a and b.</p>'')"
proof -
  have a: "getProp (JObj [(''postingFrequency'', JStr ''This strategy balances a and b.'')])
             ''postingFrequency'' = Inr (JStr ''This strategy balances a and b.'')"
    by simp
  have b: "fromFirstCI ''This strategy balances'' ''This strategy balances a and b.'' =
             Some ''This strategy balances a and b.''"
    by code_simp
  have c: "runSections (JObj [(''postingFrequency'', JStr ''This strategy balances a and b.'')])
             (sections rejectingParser) (''<h2>Marketing Strategy & Content Ideas</h2>'', False) =
           Inr (''<h2>Marketing Strategy & Content Ideas</h2><h3>Posting Frequency</h3><p>This strategy balances a and b.</p>'', True)"
    by code_simp
  have t: "trailerText ''This strategy balances a and b.'' = ''This strategy balances a and b.''"
    by code_simp
  have p: "plainText ''This strategy balances a and b.''"
    by code_simp
  from trailer_after_surviving_sections [OF a b c] p
  have "formatMarketingStrategyToHtml rejectingParser
          (JObj [(''postingFrequency'', JStr ''This strategy balances a and b.'')]) =
        Inr (cleanup ''<h2>Marketing Strategy & Content Ideas</h2><h3>Posting Frequency</h3><p>This strategy balances a and b.</p>'' @
             ''<p>'' @ trailerText ''This strategy balances a and b.'' @ ''</p>'')"
    unfolding t by blast
  then show ?thesis by (simp add: t)
qed

text \<open>
  C8, as the claim states it, fails: a document whose only field is an empty
  \<open>observations\<close> is not assembled like the document without it.
\<close>

theorem empty_field_differs_from_absent:
  "formatMarketingStrategyToHtml rejectingParser (JObj [(''observations'', JStr [])]) \<noteq>
   formatMarketingStrategyToHtml rejectingParser (JObj [])"
  by code_simp

text \<open>
  C8, amended. For a document that has at least one other field, a field that is
  present with a falsy value (the empty string, \<open>null\<close>, \<open>undefined\<close>, 0, \<open>false\<close>) is
  assembled exactly as if it were absent.
\<close>

theorem falsy_field_like_absent:
  assumes absent: "map_of kvs k = None" and others: "kvs \<noteq> []" and falsy: "\<not> truthy v"
  shows "formatMarketingStrategyToHtml jsonParse (JObj ((k, v) # kvs)) =
         formatMarketingStrategyToHtml jsonParse (JObj kvs)"
proof -
  have run: "runSections (JObj ((k, v) # kvs)) (sections jsonParse) st =
             runSections (JObj kvs) (sections jsonParse) st" for st
    by (rule runSections_cong) (rule sectionHtmlOf_falsy_field [OF absent falsy])
  have tr: "(case getProp (JObj ((k, v) # kvs)) ''postingFrequency'' of
               Inl e \<Rightarrow> Inl e
             | Inr postingFrequency \<Rightarrow> Inr (cleanup (b @ trailerOf postingFrequency))) =
            (case getProp (JObj kvs) ''postingFrequency'' of
               Inl e \<Rightarrow> Inl e
             | Inr postingFrequency \<Rightarrow> Inr (cleanup (b @ trailerOf postingFrequency)))" for b
    using absent falsy by (auto simp: trailerOf_falsy)
  have keys: "objectKeys (JObj ((k, v) # kvs)) = Inr (remdups (map fst ((k, v) # kvs)))"
    "objectKeys (JObj kvs) = Inr (remdups (map fst kvs))"
    by simp_all
  have ne: "length (remdups (map fst ((k, v) # kvs))) \<noteq> 0" "length (remdups (map fst kvs)) \<noteq> 0"
    using others by simp_all
  show ?thesis
    unfolding formatMarketingStrategyToHtml_def run tr keys using ne by simp
qed

theorem falsy_field_like_absent_witness:
  "formatMarketingStrategyToHtml rejectingParser
     (JObj [(''observations'', JStr []), (''keyTakeaways'', JStr ''x'')]) =
   formatMarketingStrategyToHtml rejectingParser (JObj [(''keyTakeaways'', JStr ''x'')])"
  using falsy_field_like_absent [of "[(''keyTakeaways'', JStr ''x'')]" "''observations''" "JStr []"
          rejectingParser]
  by simp

end
